theory Spec2Isabelle
  imports Complex_Main
begin

section \<open>The scrape-extract-clean pipeline of \<^verbatim>\<open>my_data_app.py\<close>\<close>

text \<open>
  Python strings are modelled as HOL strings (lists of characters), \<^verbatim>\<open>None\<close> as
  \<open>None\<close> of an option type, Python's unbounded integers as \<open>int\<close>, and the
  \<^verbatim>\<open>sleep\<close> duration (a Python float) as a real number.
\<close>

subsection \<open>Price normalisation: \<^verbatim>\<open>clean_price_to_int\<close>\<close>

text \<open>
  \<^verbatim>\<open>
  def clean_price_to_int(price_raw):
      if not price_raw:
          return None
      import re
      digits = re.sub(r"[^0-9]", "", price_raw)
      return int(digits) if digits else None
  \<close>
  The character class \<^verbatim>\<open>[^0-9]\<close> matches every character but the ten ASCII digits, so
  the substitution keeps exactly those. \<^verbatim>\<open>int\<close> on a non-empty string of ASCII digits
  reads it in base ten, most significant digit first; \<open>py_int\<close> is that left-to-right
  reading. (The interpreter's optional cap on the length of a decimal string handed to
  \<^verbatim>\<open>int\<close> is a configuration of the interpreter and is not part of the model.)
\<close>

definition is_digit :: "char \<Rightarrow> bool" where
  "is_digit c = (c \<in> set ''0123456789'')"

definition digit_val :: "char \<Rightarrow> int" where
  "digit_val c = int (of_char c) - 48"

definition py_int :: "string \<Rightarrow> int" where
  "py_int digits = foldl (\<lambda>acc c. 10 * acc + digit_val c) 0 digits"

definition clean_price_to_int :: "string option \<Rightarrow> int option" where
  "clean_price_to_int price_raw =
     (case price_raw of
        None \<Rightarrow> None
      | Some s \<Rightarrow>
          if s = [] then None
          else (let digits = filter is_digit s
                in if digits \<noteq> [] then Some (py_int digits) else None))"



subsection \<open>The parsed page and the extractor: \<^verbatim>\<open>extract_items_from_page_text\<close>\<close>

text \<open>
  \<^verbatim>\<open>BeautifulSoup(html_text, "html.parser")\<close> turns the page text into a tree. The
  parser is library code; the model takes it as a function from the text to the tree it
  builds and describes the tree and the searches the extractor runs on it.

  A node is a string that \<^verbatim>\<open>get_text\<close> reads (\<open>Text\<close>), a string it skips, such as
  a comment (\<open>Comment\<close>), or a tag with its name, the tokens of its \<^verbatim>\<open>class\<close>
  attribute (absent when the tag has none; the tree builder splits the attribute at white
  space), its other attributes and its children.
\<close>

datatype node =
    Text string
  | Comment string
  | Element string "string list option" "(string \<times> string) list" "node list"

text \<open>All nodes below a node, in document order (\<^verbatim>\<open>Tag.descendants\<close>).\<close>

fun descendants :: "node \<Rightarrow> node list" where
  "descendants (Element t c a ch) = concat (map (\<lambda>n. n # descendants n) ch)"
| "descendants (Text s) = []"
| "descendants (Comment s) = []"

fun join_sp :: "string list \<Rightarrow> string" where
  "join_sp [] = []"
| "join_sp [x] = x"
| "join_sp (x # y # ys) = x @ '' '' @ join_sp (y # ys)"

text \<open>
  A \<^verbatim>\<open>class_\<close> filter given as a string matches a tag when one of the tag's class
  tokens equals the string, or when the tokens joined by single blanks do; a tag without
  a \<^verbatim>\<open>class\<close> attribute never matches.
\<close>

definition class_matches :: "string \<Rightarrow> string list option \<Rightarrow> bool" where
  "class_matches cls toks =
     (case toks of None \<Rightarrow> False | Some ts \<Rightarrow> List.member ts cls \<or> join_sp ts = cls)"

fun tag_matches :: "string \<Rightarrow> string \<Rightarrow> node \<Rightarrow> bool" where
  "tag_matches nm cls (Element t c a ch) = (t = nm \<and> class_matches cls c)"
| "tag_matches nm cls (Text s) = False"
| "tag_matches nm cls (Comment s) = False"

definition find_all :: "string \<Rightarrow> string \<Rightarrow> node \<Rightarrow> node list" where
  "find_all nm cls nd = filter (tag_matches nm cls) (descendants nd)"

text \<open>\<^verbatim>\<open>find\<close> is the first result of \<^verbatim>\<open>find_all\<close>, or \<^verbatim>\<open>None\<close>.\<close>

definition find_first :: "string \<Rightarrow> string \<Rightarrow> node \<Rightarrow> node option" where
  "find_first nm cls nd = (case find_all nm cls nd of [] \<Rightarrow> None | n # _ \<Rightarrow> Some n)"

text \<open>
  \<^verbatim>\<open>str.strip()\<close> removes white space at both ends; the white-space characters among
  the first 256 code points are listed.
\<close>

definition is_space :: "char \<Rightarrow> bool" where
  "is_space c = List.member
     [CHR 0x09, CHR 0x0A, CHR 0x0B, CHR 0x0C, CHR 0x0D, CHR 0x1C, CHR 0x1D, CHR 0x1E,
      CHR 0x1F, CHR 0x20, CHR 0x85, CHR 0xA0] c"

definition strip :: "string \<Rightarrow> string" where
  "strip s = rev (dropWhile is_space (rev (dropWhile is_space s)))"

fun text_of :: "node \<Rightarrow> string list" where
  "text_of (Text s) = [s]"
| "text_of (Comment s) = []"
| "text_of (Element t c a ch) = []"

text \<open>
  \<^verbatim>\<open>tag.get_text(strip=True)\<close>: every string below the tag is stripped, the empty
  ones are dropped, the rest are joined with nothing between them.
\<close>

definition get_text_strip :: "node \<Rightarrow> string" where
  "get_text_strip n =
     concat (filter (\<lambda>s. s \<noteq> []) (map strip (concat (map text_of (descendants n)))))"

fun attr_get :: "string \<Rightarrow> node \<Rightarrow> string option" where
  "attr_get k (Element t c a ch) = map_of a k"
| "attr_get k (Text s) = None"
| "attr_get k (Comment s) = None"

text \<open>Python's \<^verbatim>\<open>a or b\<close> on optional strings: \<^verbatim>\<open>a\<close> when it is truthy, else \<^verbatim>\<open>b\<close>.\<close>

definition py_or :: "string option \<Rightarrow> string option \<Rightarrow> string option" where
  "py_or a b = (case a of None \<Rightarrow> b | Some s \<Rightarrow> if s = [] then b else Some s)"

record item =
  it_name :: "string option"
  it_price_raw :: "string option"
  it_address :: "string option"
  it_image_link :: "string option"

text \<open>
  The body of the loop over the containers. A tag is always truthy, so \<^verbatim>\<open>if name_tag\<close>
  tests for \<^verbatim>\<open>None\<close> only.
\<close>

definition extract_item :: "node \<Rightarrow> item" where
  "extract_item it =
     (let name_tag = find_first ''p'' ''ad__card-description'' it;
          nm = (case name_tag of Some t \<Rightarrow> Some (get_text_strip t) | None \<Rightarrow> None);
          price_tag = find_first ''p'' ''ad__card-price'' it;
          pr = (case price_tag of Some t \<Rightarrow> Some (get_text_strip t) | None \<Rightarrow> None);
          address_tag = find_first ''p'' ''ad__card-location'' it;
          ad = (case address_tag of Some t \<Rightarrow> Some (get_text_strip t) | None \<Rightarrow> None);
          img_tag = find_first ''img'' ''ad__card-img'' it;
          im = (case img_tag of
                  Some t \<Rightarrow> py_or (attr_get ''src'' t) (attr_get ''data-src'' t)
                | None \<Rightarrow> None)
      in \<lparr>it_name = nm, it_price_raw = pr, it_address = ad, it_image_link = im\<rparr>)"

definition extract_items_from_page_text :: "(string \<Rightarrow> node) \<Rightarrow> string \<Rightarrow> item list" where
  "extract_items_from_page_text parse html_text =
     (let soup = parse html_text;
          items = find_all ''div'' ''col s6 m4 l3'' soup
      in foldl (\<lambda>results it. results @ [extract_item it]) [] items)"

subsection \<open>The outside world: network, memo table, clock, user interface\<close>

text \<open>
  What the program reads from outside is given by an environment: the answer of the
  network to a request, the successive readings of the clock
  (\<^verbatim>\<open>pd.Timestamp.now().isoformat()\<close>) and the HTML parser. What the program does to
  the outside is recorded in a state that every operation takes and returns.

  The network answers by request. The memo table below sends a URL to the network at
  most once, so an answer that changes over time is never observed.
\<close>

record request =
  req_url :: string
  req_headers :: "(string \<times> string) list"
  req_timeout :: nat

text \<open>
  \<open>Failed\<close>: \<^verbatim>\<open>requests.get\<close> raised (connection error, timeout, bad URL, too many
  redirects, ...). \<open>Response status text\<close>: it returned a response with this status
  code and this decoded body.
\<close>

datatype http_outcome = Failed | Response int string

record env =
  net :: "request \<Rightarrow> http_outcome"
  clock :: "nat \<Rightarrow> string"
  parse_html :: "string \<Rightarrow> node"

text \<open>
  \<open>cache\<close> is the memo table of \<^verbatim>\<open>@st.cache_data\<close> (URL to stored result),
  \<open>sent\<close> the GET requests issued, \<open>fetched\<close> the URLs \<^verbatim>\<open>fetch_page\<close> was called
  with, \<open>ticks\<close> the number of clock readings taken, \<open>extracted\<close> the page texts
  handed to the extractor, \<open>progress\<close> the calls of the progress callback and
  \<open>slept\<close> the calls of \<^verbatim>\<open>time.sleep\<close>, each in order of occurrence. An entry of
  \<open>progress\<close> holds the two arguments of the call and, as a third component that the
  callback itself does not receive, the length of \<^verbatim>\<open>all_raw\<close> at the moment of the call.
\<close>

record world =
  cache :: "string \<Rightarrow> string option option"
  sent :: "request list"
  fetched :: "string list"
  ticks :: nat
  extracted :: "string list"
  progress :: "(int \<times> int \<times> nat) list"
  slept :: "real list"

subsection \<open>Fetching a page: \<^verbatim>\<open>fetch_page\<close>\<close>

text \<open>
  \<^verbatim>\<open>
  @st.cache_data(show_spinner=False)
  def fetch_page(url):
      headers = {"User-Agent": "Mozilla/5.0 (compatible; CoinafricaScraper/1.0)"}
      try:
          resp = requests.get(url, headers=headers, timeout=12)
          resp.raise_for_status()
          return resp.text
      except Exception as e:
          return None
  \<close>
  \<^verbatim>\<open>raise_for_status\<close> raises for the status codes from 400 to 599 and for no other.
  \<open>fetch_page_body\<close> is the function as written, \<open>fetch_page\<close> the function the name
  is bound to after decoration: a call with a URL seen before returns the stored result
  (a stored \<^verbatim>\<open>None\<close> included) and does not run the body.
\<close>

definition headers :: "(string \<times> string) list" where
  "headers = [(''User-Agent'', ''Mozilla/5.0 (compatible; CoinafricaScraper/1.0)'')]"

definition raise_for_status :: "int \<Rightarrow> bool" where
  "raise_for_status status = (400 \<le> status \<and> status < 600)"

definition fetch_page_body :: "env \<Rightarrow> string \<Rightarrow> world \<Rightarrow> string option \<times> world" where
  "fetch_page_body e url w =
     (let req = \<lparr>req_url = url, req_headers = headers, req_timeout = 12\<rparr>;
          w' = w\<lparr>sent := sent w @ [req]\<rparr>
      in case net e req of
           Failed \<Rightarrow> (None, w')
         | Response status txt \<Rightarrow>
             if raise_for_status status then (None, w') else (Some txt, w'))"

definition fetch_page :: "env \<Rightarrow> string \<Rightarrow> world \<Rightarrow> string option \<times> world" where
  "fetch_page e url w =
     (let w0 = w\<lparr>fetched := fetched w @ [url]\<rparr>
      in case cache w0 url of
           Some r \<Rightarrow> (r, w0)
         | None \<Rightarrow>
             (let (r, w1) = fetch_page_body e url w0
              in (r, w1\<lparr>cache := (cache w1)(url := Some r)\<rparr>)))"

subsection \<open>Scraping a category: \<^verbatim>\<open>scrape_category\<close>\<close>

record ad_common =
  category :: string
  name :: "string option"
  address :: "string option"
  image_link :: "string option"
  scraped_at :: string

record raw_row = ad_common +
  price_raw :: "string option"

record cleaned_row = ad_common +
  price :: "int option"

text \<open>Python's \<^verbatim>\<open>str\<close> of an integer, as the f-string of the page URL uses it.\<close>

fun digits10 :: "nat \<Rightarrow> string" where
  "digits10 n =
     (if n < 10 then [''0123456789'' ! n]
      else digits10 (n div 10) @ [''0123456789'' ! (n mod 10)])"

declare digits10.simps [simp del]

definition str_int :: "int \<Rightarrow> string" where
  "str_int i = (if i < 0 then ''-'' @ digits10 (nat (- i)) else digits10 (nat i))"

definition page_url_of :: "string \<Rightarrow> int \<Rightarrow> string" where
  "page_url_of url_base page = url_base @ ''?page='' @ str_int page"

text \<open>The two dictionaries built for one item.\<close>

definition raw_row_of :: "string \<Rightarrow> string \<Rightarrow> item \<Rightarrow> raw_row" where
  "raw_row_of category_key timestamp it =
     \<lparr>category = category_key, name = it_name it, address = it_address it,
      image_link = it_image_link it, scraped_at = timestamp, price_raw = it_price_raw it\<rparr>"

definition cleaned_row_of :: "string \<Rightarrow> string \<Rightarrow> item \<Rightarrow> cleaned_row" where
  "cleaned_row_of category_key timestamp it =
     (let price_clean = clean_price_to_int (it_price_raw it)
      in \<lparr>category = category_key, name = it_name it, address = it_address it,
          image_link = it_image_link it, scraped_at = timestamp, price = price_clean\<rparr>)"

text \<open>The inner loop \<^verbatim>\<open>for it in items\<close>: one append to each list per item.\<close>

fun append_items ::
  "string \<Rightarrow> string \<Rightarrow> item list \<Rightarrow> raw_row list \<times> cleaned_row list
     \<Rightarrow> raw_row list \<times> cleaned_row list" where
  "append_items category_key timestamp [] acc = acc"
| "append_items category_key timestamp (it # items) (all_raw, all_cleaned) =
     append_items category_key timestamp items
       (all_raw @ [raw_row_of category_key timestamp it],
        all_cleaned @ [cleaned_row_of category_key timestamp it])"

text \<open>
  \<^verbatim>\<open>time.sleep\<close> raises \<^verbatim>\<open>ValueError\<close> for a negative duration; this is the one
  exception of \<^verbatim>\<open>scrape_category\<close> that the model has. The progress callback is the
  caller's code and is taken to return normally.
\<close>

datatype py_error = ValueError

text \<open>
  \<^verbatim>\<open>
  def scrape_category(url_base, category_key, max_pages=10, sleep=1.0, progress_callback=None):
      all_raw = []
      all_cleaned = []
      for page in range(1, max_pages+1):
          page_url = f"{url_base}?page={page}"
          html = fetch_page(page_url)
          if not html:
              break
          items = extract_items_from_page_text(html)
          if not items:
              break
          timestamp = pd.Timestamp.now().isoformat()
          for it in items:
              ...
              all_raw.append(raw_row)
              all_cleaned.append(cleaned_row)
          if progress_callback:
              progress_callback(page, max_pages)
          time.sleep(sleep)
      raw_df = pd.DataFrame(all_raw)
      cleaned_df = pd.DataFrame(all_cleaned)
      return raw_df, cleaned_df
  \<close>
  \<open>scrape_pages\<close> is the \<^verbatim>\<open>for\<close> loop over the pages still to visit: \<^verbatim>\<open>break\<close>
  returns the lists as they are, an exception returns \<open>Inl\<close>. The two data frames are
  the two lists of rows. \<open>progress_callback\<close> is \<open>True\<close> when a callback was passed.
\<close>

fun scrape_pages ::
  "env \<Rightarrow> string \<Rightarrow> string \<Rightarrow> int \<Rightarrow> real \<Rightarrow> bool \<Rightarrow> int list
     \<Rightarrow> raw_row list \<times> cleaned_row list \<Rightarrow> world
     \<Rightarrow> (py_error + raw_row list \<times> cleaned_row list) \<times> world" where
  "scrape_pages e url_base category_key max_pages sleep progress_callback [] acc w =
     (Inr acc, w)"
| "scrape_pages e url_base category_key max_pages sleep progress_callback (page # rest) acc w =
     (let page_url = page_url_of url_base page;
          (html, w1) = fetch_page e page_url w
      in case html of
           None \<Rightarrow> (Inr acc, w1)
         | Some html_text \<Rightarrow>
             if html_text = [] then (Inr acc, w1)
             else
               (let items = extract_items_from_page_text (parse_html e) html_text;
                    w2 = w1\<lparr>extracted := extracted w1 @ [html_text]\<rparr>
                in if items = [] then (Inr acc, w2)
                   else
                     (let timestamp = clock e (ticks w2);
                          w3 = w2\<lparr>ticks := Suc (ticks w2)\<rparr>;
                          acc' = append_items category_key timestamp items acc;
                          w4 = (if progress_callback
                                then w3\<lparr>progress := progress w3
                                        @ [(page, max_pages, length (fst acc'))]\<rparr>
                                else w3)
                      in if sleep < 0 then (Inl ValueError, w4)
                         else scrape_pages e url_base category_key max_pages sleep
                                progress_callback rest acc'
                                (w4\<lparr>slept := slept w4 @ [sleep]\<rparr>))))"

definition scrape_category ::
  "env \<Rightarrow> string \<Rightarrow> string \<Rightarrow> int \<Rightarrow> real \<Rightarrow> bool \<Rightarrow> world
     \<Rightarrow> (py_error + raw_row list \<times> cleaned_row list) \<times> world" where
  "scrape_category e url_base category_key max_pages sleep progress_callback w =
     scrape_pages e url_base category_key max_pages sleep progress_callback
       [1..max_pages] ([], []) w"

subsection \<open>Schema provisioning: \<^verbatim>\<open>create_tables_if_not_exists\<close>\<close>

text \<open>
  The database is modelled by its catalogue: the list of its schema objects, each with
  a name, a kind and (for a table) its column declarations. SQLite compares names
  without regard to the case of ASCII letters. \<^verbatim>\<open>CREATE TABLE IF NOT EXISTS t\<close> has no
  effect when a table or a view named \<^verbatim>\<open>t\<close> exists, is an error when an index named
  \<^verbatim>\<open>t\<close> exists, and otherwise adds the table. Each statement is committed on its own,
  so an exception in a later statement leaves the earlier tables in place. Failures of
  the storage itself (a file that cannot be opened or written) and the bookkeeping table
  SQLite keeps for \<^verbatim>\<open>AUTOINCREMENT\<close> are outside the model.
\<close>

datatype obj_kind = Table | View | Index

record schema_obj =
  obj_name :: string
  obj_kind :: obj_kind
  obj_cols :: "(string \<times> string) list"

type_synonym catalog = "schema_obj list"

datatype db_error = OperationalError

definition ascii_lower :: "char \<Rightarrow> char" where
  "ascii_lower c =
     (let n = (of_char c :: nat) in if 65 \<le> n \<and> n \<le> 90 then char_of (n + 32) else c)"

definition same_name :: "string \<Rightarrow> string \<Rightarrow> bool" where
  "same_name a b = (map ascii_lower a = map ascii_lower b)"

definition has_relation :: "catalog \<Rightarrow> string \<Rightarrow> bool" where
  "has_relation db nm = list_ex (\<lambda>ob. same_name (obj_name ob) nm \<and> obj_kind ob \<noteq> Index) db"

definition has_index :: "catalog \<Rightarrow> string \<Rightarrow> bool" where
  "has_index db nm = list_ex (\<lambda>ob. same_name (obj_name ob) nm \<and> obj_kind ob = Index) db"

definition create_table_if_not_exists ::
  "string \<Rightarrow> (string \<times> string) list \<Rightarrow> catalog \<Rightarrow> catalog \<times> db_error option" where
  "create_table_if_not_exists nm cols db =
     (if has_relation db nm then (db, None)
      else if has_index db nm then (db, Some OperationalError)
      else (db @ [\<lparr>obj_name = nm, obj_kind = Table, obj_cols = cols\<rparr>], None))"

definition raw_ads_cols :: "(string \<times> string) list" where
  "raw_ads_cols =
     [(''category'', ''TEXT''), (''name'', ''TEXT''), (''price_raw'', ''TEXT''),
      (''address'', ''TEXT''), (''image_link'', ''TEXT''), (''scraped_at'', ''TEXT'')]"

definition cleaned_ads_cols :: "(string \<times> string) list" where
  "cleaned_ads_cols =
     [(''category'', ''TEXT''), (''name'', ''TEXT''), (''price'', ''INTEGER''),
      (''address'', ''TEXT''), (''image_link'', ''TEXT''), (''scraped_at'', ''TEXT'')]"

definition evaluations_cols :: "(string \<times> string) list" where
  "evaluations_cols =
     [(''id'', ''INTEGER PRIMARY KEY AUTOINCREMENT''), (''name'', ''TEXT''),
      (''email'', ''TEXT''), (''rating'', ''INTEGER''), (''pros'', ''TEXT''),
      (''cons'', ''TEXT''), (''comment'', ''TEXT''), (''submitted_at'', ''TEXT'')]"

text \<open>
  The three \<^verbatim>\<open>cur.execute\<close> calls in order; an exception ends the function.
  \<^verbatim>\<open>commit\<close> and \<^verbatim>\<open>close\<close> do not change the catalogue.
\<close>

definition create_tables_if_not_exists :: "catalog \<Rightarrow> catalog \<times> db_error option" where
  "create_tables_if_not_exists db =
     (case create_table_if_not_exists ''raw_ads'' raw_ads_cols db of
        (db1, Some err) \<Rightarrow> (db1, Some err)
      | (db1, None) \<Rightarrow>
          (case create_table_if_not_exists ''cleaned_ads'' cleaned_ads_cols db1 of
             (db2, Some err) \<Rightarrow> (db2, Some err)
           | (db2, None) \<Rightarrow> create_table_if_not_exists ''evaluations'' evaluations_cols db2))"

definition table_names :: "string list" where
  "table_names = [''raw_ads'', ''cleaned_ads'', ''evaluations'']"

text \<open>How many objects of a catalogue bear a name.\<close>

definition name_count :: "catalog \<Rightarrow> string \<Rightarrow> nat" where
  "name_count db nm = length (filter (\<lambda>ob. same_name (obj_name ob) nm) db)"

subsection \<open>What a run reads and what it yields\<close>

text \<open>
  The result of the body of \<^verbatim>\<open>fetch_page\<close> depends on the answer of the network
  only; \<open>effective\<close> is what a call of \<^verbatim>\<open>fetch_page\<close> returns in a given state: the
  stored result if there is one, the result of the body otherwise.
\<close>

definition http_result :: "env \<Rightarrow> string \<Rightarrow> string option" where
  "http_result e url =
     (case net e \<lparr>req_url = url, req_headers = headers, req_timeout = 12\<rparr> of
        Failed \<Rightarrow> None
      | Response status txt \<Rightarrow> if raise_for_status status then None else Some txt)"

definition effective :: "env \<Rightarrow> world \<Rightarrow> string \<Rightarrow> string option" where
  "effective e w url = (case cache w url of Some r \<Rightarrow> r | None \<Rightarrow> http_result e url)"

text \<open>The page text as the extractor sees it: none when the fetch result is falsy.\<close>

definition truthy_text :: "string option \<Rightarrow> string list" where
  "truthy_text html = (case html of None \<Rightarrow> [] | Some t \<Rightarrow> if t = [] then [] else [t])"

text \<open>
  The items a page contributes: none when its fetch fails, when its text is empty or
  when the extractor finds no container.
\<close>

definition page_items :: "env \<Rightarrow> world \<Rightarrow> string \<Rightarrow> int \<Rightarrow> item list" where
  "page_items e w url_base page =
     (case effective e w (page_url_of url_base page) of
        None \<Rightarrow> []
      | Some t \<Rightarrow> if t = [] then [] else extract_items_from_page_text (parse_html e) t)"

text \<open>The pages that contribute records: those before the first page without items.\<close>

definition good_pages :: "(int \<Rightarrow> item list) \<Rightarrow> int list \<Rightarrow> int list" where
  "good_pages items ps = takeWhile (\<lambda>p. items p \<noteq> []) ps"

text \<open>
  The rows of a list of pages, each page paired with the number of the clock reading
  that stamps it: one batch per page, and the batches in one list.
\<close>

definition raw_batches ::
  "string \<Rightarrow> (nat \<Rightarrow> string) \<Rightarrow> (int \<Rightarrow> item list) \<Rightarrow> (nat \<times> int) list
     \<Rightarrow> raw_row list list" where
  "raw_batches ck clk items bs = map (\<lambda>(i, p). map (raw_row_of ck (clk i)) (items p)) bs"

definition cleaned_batches ::
  "string \<Rightarrow> (nat \<Rightarrow> string) \<Rightarrow> (int \<Rightarrow> item list) \<Rightarrow> (nat \<times> int) list
     \<Rightarrow> cleaned_row list list" where
  "cleaned_batches ck clk items bs =
     map (\<lambda>(i, p). map (cleaned_row_of ck (clk i)) (items p)) bs"

definition raw_rows ::
  "string \<Rightarrow> (nat \<Rightarrow> string) \<Rightarrow> (int \<Rightarrow> item list) \<Rightarrow> (nat \<times> int) list \<Rightarrow> raw_row list" where
  "raw_rows ck clk items bs = concat (raw_batches ck clk items bs)"

definition cleaned_rows ::
  "string \<Rightarrow> (nat \<Rightarrow> string) \<Rightarrow> (int \<Rightarrow> item list) \<Rightarrow> (nat \<times> int) list \<Rightarrow> cleaned_row list" where
  "cleaned_rows ck clk items bs = concat (cleaned_batches ck clk items bs)"

text \<open>The loop over the contributing pages alone, and the progress calls it makes.\<close>

fun add_pages ::
  "string \<Rightarrow> (nat \<Rightarrow> string) \<Rightarrow> (int \<Rightarrow> item list) \<Rightarrow> nat \<Rightarrow> int list
     \<Rightarrow> raw_row list \<times> cleaned_row list \<Rightarrow> raw_row list \<times> cleaned_row list" where
  "add_pages ck clk items t [] acc = acc"
| "add_pages ck clk items t (p # ps) acc =
     add_pages ck clk items (Suc t) ps (append_items ck (clk t) (items p) acc)"

fun progress_entries ::
  "int \<Rightarrow> (int \<Rightarrow> item list) \<Rightarrow> nat \<Rightarrow> int list \<Rightarrow> (int \<times> int \<times> nat) list" where
  "progress_entries mp items n [] = []"
| "progress_entries mp items n (p # ps) =
     (p, mp, n + length (items p)) # progress_entries mp items (n + length (items p)) ps"


subsection \<open>A small site, for concrete runs\<close>

text \<open>
  Three ad cards: one with all four fields, one whose image has an empty \<^verbatim>\<open>src\<close> and a
  \<^verbatim>\<open>data-src\<close> and which has no price and no location, one whose image has neither
  attribute and whose price text holds no digit.
\<close>

definition card_full :: node where
  "card_full =
     Element ''div'' (Some [''col'', ''s6'', ''m4'', ''l3'']) []
       [Element ''a'' None [(''href'', ''/annonce/1'')]
          [Element ''img'' (Some [''ad__card-img'']) [(''src'', ''/img/1.jpg'')] []],
        Element ''p'' (Some [''ad__card-price'']) [] [Text '' 12 500 FCFA ''],
        Element ''p'' (Some [''ad__card-description'']) [] [Text ''Berger allemand''],
        Element ''p'' (Some [''ad__card-location'']) [] [Comment ''pin'', Text ''Dakar'']]"

definition card_lazy :: node where
  "card_lazy =
     Element ''div'' (Some [''col'', ''s6'', ''m4'', ''l3'']) []
       [Element ''img'' (Some [''ad__card-img'', ''lazy''])
          [(''src'', ''''), (''data-src'', ''/img/2.jpg'')] [],
        Element ''p'' (Some [''ad__card-description'']) [] [Text ''Chiot'']]"

definition card_bare :: node where
  "card_bare =
     Element ''div'' (Some [''col'', ''s6'', ''m4'', ''l3'']) []
       [Element ''img'' (Some [''ad__card-img'']) [(''alt'', ''photo'')] [],
        Element ''p'' (Some [''ad__card-price'']) [] [Text ''Prix sur demande'']]"

definition doc_a :: node where
  "doc_a = Element ''[document]'' None []
     [Element ''div'' (Some [''row'']) [] [card_full, card_lazy]]"

definition doc_b :: node where
  "doc_b = Element ''[document]'' None [] [card_bare]"

definition doc_none :: node where
  "doc_none = Element ''[document]'' None []
     [Element ''div'' (Some [''col'', ''s6'']) [] [Text ''Aucune annonce'']]"

definition site_parse :: "string \<Rightarrow> node" where
  "site_parse t = (if t = ''A'' then doc_a else if t = ''B'' then doc_b else doc_none)"

text \<open>
  Pages 1 and 2 hold cards, page 3 is answered with status 200 and an empty body, every
  other URL with status 404.
\<close>

definition site_net :: "request \<Rightarrow> http_outcome" where
  "site_net r =
     (if req_url r = ''u?page=1'' then Response 200 ''A''
      else if req_url r = ''u?page=2'' then Response 200 ''B''
      else if req_url r = ''u?page=3'' then Response 200 ''''
      else Response 404 ''Not Found'')"

definition site_clock :: "nat \<Rightarrow> string" where
  "site_clock n = ''2024-05-01T10:00:0'' @ digits10 n"

definition site :: env where
  "site = \<lparr>net = site_net, clock = site_clock, parse_html = site_parse\<rparr>"

text \<open>The same site with page 3 failing at the network instead.\<close>

definition site_down :: env where
  "site_down =
     \<lparr>net = (\<lambda>r. if req_url r = ''u?page=3'' then Failed else site_net r),
      clock = site_clock, parse_html = site_parse\<rparr>"

text \<open>The same site read with a clock that does not advance between two readings.\<close>

definition site_stuck :: env where
  "site_stuck =
     \<lparr>net = site_net, clock = (\<lambda>n. ''2024-05-01T10:00:00''), parse_html = site_parse\<rparr>"


definition world0 :: world where
  "world0 = \<lparr>cache = (\<lambda>u. None), sent = [], fetched = [], ticks = 0, extracted = [],
     progress = [], slept = []\<rparr>"

text \<open>The rows that scraping the small site yields.\<close>

definition site_raw :: "raw_row list" where
  "site_raw =
     [\<lparr>category = ''dogs'', name = Some ''Berger allemand'', address = Some ''Dakar'',
        image_link = Some ''/img/1.jpg'', scraped_at = ''2024-05-01T10:00:00'',
        price_raw = Some ''12 500 FCFA''\<rparr>,
      \<lparr>category = ''dogs'', name = Some ''Chiot'', address = None,
        image_link = Some ''/img/2.jpg'', scraped_at = ''2024-05-01T10:00:00'',
        price_raw = None\<rparr>,
      \<lparr>category = ''dogs'', name = None, address = None, image_link = None,
        scraped_at = ''2024-05-01T10:00:01'', price_raw = Some ''Prix sur demande''\<rparr>]"

definition site_cleaned :: "cleaned_row list" where
  "site_cleaned =
     [\<lparr>category = ''dogs'', name = Some ''Berger allemand'', address = Some ''Dakar'',
        image_link = Some ''/img/1.jpg'', scraped_at = ''2024-05-01T10:00:00'',
        price = Some 12500\<rparr>,
      \<lparr>category = ''dogs'', name = Some ''Chiot'', address = None,
        image_link = Some ''/img/2.jpg'', scraped_at = ''2024-05-01T10:00:00'',
        price = None\<rparr>,
      \<lparr>category = ''dogs'', name = None, address = None, image_link = None,
        scraped_at = ''2024-05-01T10:00:01'', price = None\<rparr>]"

section \<open>Properties\<close>

subsection \<open>Price normalisation\<close>










subsection \<open>The extractor\<close>





subsection \<open>Fetching\<close>

lemma fetch_page_body_eq:
  "fetch_page_body e url w =
     (http_result e url,
      w\<lparr>sent := sent w @ [\<lparr>req_url = url, req_headers = headers, req_timeout = 12\<rparr>]\<rparr>)"
  by (simp add: fetch_page_body_def http_result_def Let_def split: http_outcome.splits)

lemma fetch_page_fst: "fst (fetch_page e url w) = effective e w url"
  by (simp add: fetch_page_def fetch_page_body_eq effective_def Let_def split: option.splits)

lemma fetch_page_effective: "effective e (snd (fetch_page e url w)) = effective e w"
  by (rule ext)
    (simp add: fetch_page_def fetch_page_body_eq effective_def Let_def split: option.splits)

lemma fetch_page_frame:
  "ticks (snd (fetch_page e url w)) = ticks w"
  "extracted (snd (fetch_page e url w)) = extracted w"
  "progress (snd (fetch_page e url w)) = progress w"
  "slept (snd (fetch_page e url w)) = slept w"
  "fetched (snd (fetch_page e url w)) = fetched w @ [url]"
  by (simp_all add: fetch_page_def fetch_page_body_eq Let_def split: option.splits)

lemma page_items_cong: "effective e w' = effective e w \<Longrightarrow> page_items e w' = page_items e w"
  by (intro ext) (simp add: page_items_def)

lemma page_items_truthy:
  "page_items e w ub p =
     concat (map (extract_items_from_page_text (parse_html e))
       (truthy_text (effective e w (page_url_of ub p))))"
  by (simp add: page_items_def truthy_text_def split: option.splits)

subsection \<open>One turn of the page loop\<close>

lemma scrape_pages_stop:
  assumes "page_items e w ub page = []"
  shows "\<exists>w'. scrape_pages e ub ck mp sl cb (page # rest) acc w = (Inr acc, w')
          \<and> ticks w' = ticks w \<and> progress w' = progress w \<and> slept w' = slept w
          \<and> fetched w' = fetched w @ [page_url_of ub page]
          \<and> extracted w' = extracted w @ truthy_text (effective e w (page_url_of ub page))
          \<and> effective e w' = effective e w"
proof -
  obtain html w1 where f: "fetch_page e (page_url_of ub page) w = (html, w1)"
    by (cases "fetch_page e (page_url_of ub page) w")
  have h: "html = effective e w (page_url_of ub page)"
    using fetch_page_fst [of e "page_url_of ub page" w] f by simp
  have w1: "ticks w1 = ticks w" "extracted w1 = extracted w" "progress w1 = progress w"
    "slept w1 = slept w" "fetched w1 = fetched w @ [page_url_of ub page]"
    "effective e w1 = effective e w"
    using fetch_page_frame [of e "page_url_of ub page" w]
      fetch_page_effective [of e "page_url_of ub page" w] f by simp_all
  have eff: "\<And>x. effective e (w1\<lparr>extracted := x\<rparr>) = effective e w1"
    by (rule ext) (simp add: effective_def)
  show ?thesis
    using assms f h w1 eff
    by (auto simp: page_items_def truthy_text_def Let_def split: option.splits)
qed

lemma scrape_pages_continue:
  assumes "page_items e w ub page \<noteq> []" and "0 \<le> sl"
  shows "\<exists>w'. scrape_pages e ub ck mp sl cb (page # rest) acc w
            = scrape_pages e ub ck mp sl cb rest
                (append_items ck (clock e (ticks w)) (page_items e w ub page) acc) w'
          \<and> ticks w' = Suc (ticks w)
          \<and> progress w' = progress w @
              (if cb then [(page, mp, length (fst (append_items ck (clock e (ticks w))
                 (page_items e w ub page) acc)))] else [])
          \<and> slept w' = slept w @ [sl]
          \<and> fetched w' = fetched w @ [page_url_of ub page]
          \<and> extracted w' = extracted w @ truthy_text (effective e w (page_url_of ub page))
          \<and> effective e w' = effective e w"
proof -
  obtain html w1 where f: "fetch_page e (page_url_of ub page) w = (html, w1)"
    by (cases "fetch_page e (page_url_of ub page) w")
  have h: "html = effective e w (page_url_of ub page)"
    using fetch_page_fst [of e "page_url_of ub page" w] f by simp
  have w1: "ticks w1 = ticks w" "extracted w1 = extracted w" "progress w1 = progress w"
    "slept w1 = slept w" "fetched w1 = fetched w @ [page_url_of ub page]"
    "effective e w1 = effective e w"
    using fetch_page_frame [of e "page_url_of ub page" w]
      fetch_page_effective [of e "page_url_of ub page" w] f by simp_all
  have eff:
    "\<And>w2 x y z u. effective e (w2\<lparr>extracted := x, ticks := y, progress := z, slept := u\<rparr>)
       = effective e w2"
    "\<And>w2 x y u. effective e (w2\<lparr>extracted := x, ticks := y, slept := u\<rparr>) = effective e w2"
    by (rule ext, simp add: effective_def)+
  show ?thesis
    using assms f h w1 eff
    by (auto simp: page_items_def truthy_text_def Let_def split: option.splits)
qed


subsection \<open>The whole loop\<close>

lemma append_items_eq:
  "append_items ck ts its (ar, ac)
     = (ar @ map (raw_row_of ck ts) its, ac @ map (cleaned_row_of ck ts) its)"
  by (induction its arbitrary: ar ac) simp_all

lemma append_items_length:
  "length (fst (append_items ck ts its acc)) = length (fst acc) + length its"
  by (cases acc) (simp add: append_items_eq)

lemma add_pages_eq:
  "add_pages ck clk items t ps (ar, ac)
     = (ar @ raw_rows ck clk items (enumerate t ps),
        ac @ cleaned_rows ck clk items (enumerate t ps))"
  by (induction ps arbitrary: t ar ac)
    (simp_all add: raw_rows_def cleaned_rows_def raw_batches_def cleaned_batches_def
      append_items_eq)

lemma scrape_pages_run:
  assumes "0 \<le> sl"
  shows "\<exists>w'. scrape_pages e ub ck mp sl cb ps acc w
            = (Inr (add_pages ck (clock e) (page_items e w ub) (ticks w)
                     (good_pages (page_items e w ub) ps) acc), w')
          \<and> ticks w' = ticks w + length (good_pages (page_items e w ub) ps)
          \<and> progress w' = progress w @
              (if cb then progress_entries mp (page_items e w ub) (length (fst acc))
                            (good_pages (page_items e w ub) ps) else [])
          \<and> slept w' = slept w @ replicate (length (good_pages (page_items e w ub) ps)) sl
          \<and> fetched w' = fetched w @
              map (page_url_of ub) (take (Suc (length (good_pages (page_items e w ub) ps))) ps)
          \<and> extracted w' = extracted w @
              concat (map (\<lambda>p. truthy_text (effective e w (page_url_of ub p)))
                (take (Suc (length (good_pages (page_items e w ub) ps))) ps))
          \<and> effective e w' = effective e w"
proof (induction ps arbitrary: acc w)
  case Nil
  show ?case by (simp add: good_pages_def)
next
  case (Cons page rest)
  show ?case
  proof (cases "page_items e w ub page = []")
    case True
    from scrape_pages_stop [OF True, of ck mp sl cb rest acc]
    show ?thesis using True by (auto simp: good_pages_def)
  next
    case False
    from scrape_pages_continue [OF False assms, of ck mp cb rest acc]
    obtain w1 where s: "scrape_pages e ub ck mp sl cb (page # rest) acc w
            = scrape_pages e ub ck mp sl cb rest
                (append_items ck (clock e (ticks w)) (page_items e w ub page) acc) w1"
      and w1: "ticks w1 = Suc (ticks w)"
         "progress w1 = progress w @
              (if cb then [(page, mp, length (fst (append_items ck (clock e (ticks w))
                 (page_items e w ub page) acc)))] else [])"
         "slept w1 = slept w @ [sl]"
         "fetched w1 = fetched w @ [page_url_of ub page]"
         "extracted w1 = extracted w @ truthy_text (effective e w (page_url_of ub page))"
         "effective e w1 = effective e w"
      by blast
    have pi: "page_items e w1 = page_items e w"
      using w1(6) by (rule page_items_cong)
    from Cons.IH [of "append_items ck (clock e (ticks w)) (page_items e w ub page) acc" w1]
    obtain w' where r: "scrape_pages e ub ck mp sl cb rest
         (append_items ck (clock e (ticks w)) (page_items e w ub page) acc) w1
        = (Inr (add_pages ck (clock e) (page_items e w1 ub) (ticks w1)
               (good_pages (page_items e w1 ub) rest)
               (append_items ck (clock e (ticks w)) (page_items e w ub page) acc)), w')"
      and w': "ticks w' = ticks w1 + length (good_pages (page_items e w1 ub) rest)"
        "progress w' = progress w1 @
              (if cb then progress_entries mp (page_items e w1 ub)
                 (length (fst (append_items ck (clock e (ticks w)) (page_items e w ub page) acc)))
                            (good_pages (page_items e w1 ub) rest) else [])"
        "slept w' = slept w1 @ replicate (length (good_pages (page_items e w1 ub) rest)) sl"
        "fetched w' = fetched w1 @
              map (page_url_of ub)
                (take (Suc (length (good_pages (page_items e w1 ub) rest))) rest)"
        "extracted w' = extracted w1 @
              concat (map (\<lambda>p. truthy_text (effective e w1 (page_url_of ub p)))
                (take (Suc (length (good_pages (page_items e w1 ub) rest))) rest))"
        "effective e w' = effective e w1"
      by blast
    have g: "good_pages (page_items e w ub) (page # rest)
               = page # good_pages (page_items e w ub) rest"
      using False by (simp add: good_pages_def)
    show ?thesis
      using s r w1 w' pi g by (simp add: append_items_length replicate_append_same)
  qed
qed

text \<open>The same for the call itself, the rows in closed form.\<close>

lemma scrape_category_run:
  assumes "0 \<le> sl"
  shows "\<exists>w'. scrape_category e ub ck mp sl cb w
            = (Inr (raw_rows ck (clock e) (page_items e w ub)
                      (enumerate (ticks w) (good_pages (page_items e w ub) [1..mp])),
                    cleaned_rows ck (clock e) (page_items e w ub)
                      (enumerate (ticks w) (good_pages (page_items e w ub) [1..mp]))), w')
          \<and> ticks w' = ticks w + length (good_pages (page_items e w ub) [1..mp])
          \<and> progress w' = progress w @
              (if cb then progress_entries mp (page_items e w ub) 0
                            (good_pages (page_items e w ub) [1..mp]) else [])
          \<and> slept w' = slept w @ replicate (length (good_pages (page_items e w ub) [1..mp])) sl
          \<and> fetched w' = fetched w @
              map (page_url_of ub)
                (take (Suc (length (good_pages (page_items e w ub) [1..mp]))) [1..mp])
          \<and> extracted w' = extracted w @
              concat (map (\<lambda>p. truthy_text (effective e w (page_url_of ub p)))
                (take (Suc (length (good_pages (page_items e w ub) [1..mp]))) [1..mp]))
          \<and> effective e w' = effective e w"
proof -
  have a: "add_pages ck (clock e) (page_items e w ub) (ticks w)
             (good_pages (page_items e w ub) [1..mp]) ([], [])
           = (raw_rows ck (clock e) (page_items e w ub)
                (enumerate (ticks w) (good_pages (page_items e w ub) [1..mp])),
              cleaned_rows ck (clock e) (page_items e w ub)
                (enumerate (ticks w) (good_pages (page_items e w ub) [1..mp])))"
    by (simp add: add_pages_eq)
  have b: "length (fst (([], []) :: raw_row list \<times> cleaned_row list)) = 0"
    by simp
  show ?thesis
    using scrape_pages_run [OF assms, of e ub ck mp cb "[1..mp]" "([], [])" w]
    unfolding scrape_category_def a b .
qed

subsection \<open>One request per fetch\<close>




subsection \<open>Raw and cleaned rows correspond\<close>




lemma site_run:
  "fst (scrape_category site ''u'' ''dogs'' 5 1 True world0) = Inr (site_raw, site_cleaned)"
  by code_simp



subsection \<open>Where the loop stops\<close>






subsection \<open>The progress callback\<close>




lemma good_pages_all: "list_all (\<lambda>p. items p \<noteq> []) (good_pages items ps)"
  by (auto simp: good_pages_def list_all_iff dest: set_takeWhileD)









subsection \<open>Timestamps\<close>

lemma all_good: "list_all (\<lambda>p. items p \<noteq> []) ps \<Longrightarrow> good_pages items ps = ps"
  by (simp add: good_pages_def list_all_iff)

lemma batches_length:
  "length (raw_batches ck clk items (enumerate t ps)) = length ps"
  "length (cleaned_batches ck clk items (enumerate t ps)) = length ps"
  by (simp_all add: raw_batches_def cleaned_batches_def)

lemma batches_nth:
  assumes "i < length ps"
  shows "raw_batches ck clk items (enumerate t ps) ! i
           = map (raw_row_of ck (clk (t + i))) (items (ps ! i))"
    and "cleaned_batches ck clk items (enumerate t ps) ! i
           = map (cleaned_row_of ck (clk (t + i))) (items (ps ! i))"
  using assms by (simp_all add: raw_batches_def cleaned_batches_def nth_enumerate_eq)

lemma scraped_at_rows:
  "list_all (\<lambda>r. scraped_at r = ts) (map (raw_row_of ck ts) its)"
  "list_all (\<lambda>c. scraped_at c = ts) (map (cleaned_row_of ck ts) its)"
  by (simp_all add: list_all_iff raw_row_of_def cleaned_row_of_def)

lemma site_batches:
  "raw_batches ''dogs'' (clock site) (page_items site world0 ''u'')
     (enumerate 0 (good_pages (page_items site world0 ''u'') [1..5]))
     = [take 2 site_raw, drop 2 site_raw]"
  "cleaned_batches ''dogs'' (clock site) (page_items site world0 ''u'')
     (enumerate 0 (good_pages (page_items site world0 ''u'') [1..5]))
     = [take 2 site_cleaned, drop 2 site_cleaned]"
  by code_simp+

lemma site_two_pages: "list_all (\<lambda>p. page_items site world0 ''u'' p \<noteq> []) [1..2]"
  by code_simp

lemma site_batches2:
  "raw_batches ''dogs'' (clock site) (page_items site world0 ''u'') (enumerate 0 [1..2])
     = [take 2 site_raw, drop 2 site_raw]"
  "cleaned_batches ''dogs'' (clock site) (page_items site world0 ''u'')
     (enumerate 0 [1..2]) = [take 2 site_cleaned, drop 2 site_cleaned]"
  by code_simp+

text \<open>
  Claim C5, as amended. With a non-negative \<^verbatim>\<open>sleep\<close>, the rows a run returns are
  the batches of its contributing pages, one raw and one cleaned batch of equal length per
  page and none of them empty. The clock is read once per batch, and every row of the
  \<open>i\<close>-th batch, raw or cleaned, carries the \<open>i\<close>-th of these readings as its
  \<^verbatim>\<open>scraped_at\<close>, which is a string and never \<^verbatim>\<open>None\<close>. The value is thus the
  same for all rows of one page; nothing makes it the same for two pages.
\<close>

theorem scraped_at_per_page:
  fixes e :: env and w :: world and ub ck :: string and mp :: int
  defines "pages \<equiv> enumerate (ticks w) (good_pages (page_items e w ub) [1..mp])"
  defines "rb \<equiv> raw_batches ck (clock e) (page_items e w ub) pages"
  defines "cb \<equiv> cleaned_batches ck (clock e) (page_items e w ub) pages"
  assumes "0 \<le> sl"
  shows "\<exists>w'. scrape_category e ub ck mp sl pc w = (Inr (concat rb, concat cb), w')
     \<and> length rb = length cb
     \<and> ticks w' = ticks w + length rb
     \<and> (\<forall>i < length rb.
            rb ! i \<noteq> [] \<and> length (cb ! i) = length (rb ! i)
          \<and> list_all (\<lambda>r. scraped_at r = clock e (ticks w + i)) (rb ! i)
          \<and> list_all (\<lambda>c. scraped_at c = clock e (ticks w + i)) (cb ! i))"
proof -
  let ?items = "page_items e w ub"
  let ?pages = "good_pages ?items [1..mp]"
  from scrape_category_run [OF assms(4), of e ub ck mp pc w] obtain w' where
    r: "scrape_category e ub ck mp sl pc w = (Inr (concat rb, concat cb), w')"
    and t: "ticks w' = ticks w + length ?pages"
    unfolding raw_rows_def cleaned_rows_def rb_def cb_def pages_def by blast
  have l: "length rb = length ?pages" "length cb = length ?pages"
    unfolding rb_def cb_def pages_def by (rule batches_length)+
  have n: "rb ! i \<noteq> [] \<and> length (cb ! i) = length (rb ! i)
          \<and> list_all (\<lambda>r. scraped_at r = clock e (ticks w + i)) (rb ! i)
          \<and> list_all (\<lambda>c. scraped_at c = clock e (ticks w + i)) (cb ! i)"
    if "i < length rb" for i
  proof -
    from that l have i: "i < length ?pages" by simp
    have "?pages ! i \<in> set ?pages" using i by simp
    then have "?items (?pages ! i) \<noteq> []"
      using good_pages_all [of ?items "[1..mp]"] by (simp add: list_all_iff)
    then show ?thesis
      unfolding rb_def cb_def pages_def by (simp add: batches_nth [OF i] scraped_at_rows)
  qed
  have c1: "length rb = length cb" using l by simp
  have c2: "ticks w' = ticks w + length rb" using t l by simp
  have c3: "\<forall>i < length rb.
            rb ! i \<noteq> [] \<and> length (cb ! i) = length (rb ! i)
          \<and> list_all (\<lambda>r. scraped_at r = clock e (ticks w + i)) (rb ! i)
          \<and> list_all (\<lambda>c. scraped_at c = clock e (ticks w + i)) (cb ! i)"
    by (intro allI impI) (rule n)
  show ?thesis
    by (intro exI [of _ w'] conjI) (rule r c1 c2 c3)+
qed

theorem scraped_at_per_page_witness:
  "\<exists>w'. scrape_category site ''u'' ''dogs'' 5 1 True world0
          = (Inr (concat [take 2 site_raw, drop 2 site_raw],
                  concat [take 2 site_cleaned, drop 2 site_cleaned]), w')
      \<and> ticks w' = 2
      \<and> list_all (\<lambda>r. scraped_at r = ''2024-05-01T10:00:00'') (take 2 site_raw)
      \<and> list_all (\<lambda>r. scraped_at r = ''2024-05-01T10:00:01'') (drop 2 site_raw)"
proof -
  have s: "(0::real) \<le> 1" by simp
  have t: "ticks world0 = 0" by (simp add: world0_def)
  have c: "clock site 0 = ''2024-05-01T10:00:00''" "clock site 1 = ''2024-05-01T10:00:01''"
    by code_simp+
  from scraped_at_per_page [OF s, of site "''u''" "''dogs''" 5 True world0]
  obtain w' where
    a: "scrape_category site ''u'' ''dogs'' 5 1 True world0
          = (Inr (concat [take 2 site_raw, drop 2 site_raw],
                  concat [take 2 site_cleaned, drop 2 site_cleaned]), w')"
    and b: "ticks w' = 2"
    and d: "\<forall>i < 2. list_all (\<lambda>r. scraped_at r = clock site i)
                        ([take 2 site_raw, drop 2 site_raw] ! i)"
    unfolding t site_batches by auto
  from d [THEN spec, of 0] d [THEN spec, of 1]
  have "list_all (\<lambda>r. scraped_at r = clock site 0) (take 2 site_raw)"
    "list_all (\<lambda>r. scraped_at r = clock site 1) (drop 2 site_raw)"
    by simp_all
  then have "list_all (\<lambda>r. scraped_at r = ''2024-05-01T10:00:00'') (take 2 site_raw)"
    "list_all (\<lambda>r. scraped_at r = ''2024-05-01T10:00:01'') (drop 2 site_raw)"
    unfolding c by simp_all
  with a b show ?thesis by blast
qed

text \<open>
  The claim as stated fails: in the run over the small site the first row, from page 1,
  and the third row, from page 2, carry different timestamps.
\<close>

theorem scraped_at_differs_across_pages_counterexample:
  "fst (scrape_category site ''u'' ''dogs'' 5 1 True world0) = Inr (site_raw, site_cleaned)
   \<and> scraped_at (site_raw ! 0) = ''2024-05-01T10:00:00''
   \<and> scraped_at (site_raw ! 2) = ''2024-05-01T10:00:01''
   \<and> scraped_at (site_raw ! 0) \<noteq> scraped_at (site_raw ! 2)"
  using site_run by (simp add: site_raw_def)

text \<open>
  Claim C4, as amended. If every page from 1 to \<open>N\<close> yields at least one item and
  \<^verbatim>\<open>sleep\<close> is not negative, a run with \<^verbatim>\<open>max_pages = N\<close> fetches exactly the
  pages 1 to \<open>N\<close>, reads the clock exactly \<open>N\<close> times and returns exactly
  \<open>N\<close> batches, none empty. The batch of page \<open>p\<close> is built from the items of
  that page and every row of it carries the one clock reading taken for that page, the
  \<open>p\<close>-th of the run. Rows of two pages therefore carry different timestamps exactly
  when the two readings differ; the code does not compare them.
\<close>

theorem scrape_category_all_pages:
  fixes e :: env and w :: world and ub ck :: string and N :: int
  defines "rb \<equiv> raw_batches ck (clock e) (page_items e w ub) (enumerate (ticks w) [1..N])"
  defines "cb \<equiv> cleaned_batches ck (clock e) (page_items e w ub) (enumerate (ticks w) [1..N])"
  assumes "0 \<le> sl" and "list_all (\<lambda>p. page_items e w ub p \<noteq> []) [1..N]"
  shows "\<exists>w'. scrape_category e ub ck N sl pc w = (Inr (concat rb, concat cb), w')
     \<and> length rb = nat N \<and> length cb = nat N
     \<and> ticks w' = ticks w + nat N
     \<and> fetched w' = fetched w @ map (page_url_of ub) [1..N]
     \<and> (\<forall>i < nat N.
            rb ! i = map (raw_row_of ck (clock e (ticks w + i))) (page_items e w ub (1 + int i))
          \<and> cb ! i = map (cleaned_row_of ck (clock e (ticks w + i)))
                         (page_items e w ub (1 + int i))
          \<and> rb ! i \<noteq> []
          \<and> list_all (\<lambda>r. scraped_at r = clock e (ticks w + i)) (rb ! i)
          \<and> list_all (\<lambda>c. scraped_at c = clock e (ticks w + i)) (cb ! i))
     \<and> (\<forall>i < nat N. \<forall>j < nat N. \<forall>r \<in> set (rb ! i). \<forall>r' \<in> set (rb ! j).
            (scraped_at r = scraped_at r')
              = (clock e (ticks w + i) = clock e (ticks w + j)))"
proof -
  let ?items = "page_items e w ub"
  have g: "good_pages ?items [1..N] = [1..N]"
    using assms(4) by (rule all_good)
  have len: "length [1..N] = nat N" by simp
  from scrape_category_run [OF assms(3), of e ub ck N pc w] obtain w' where
    r: "scrape_category e ub ck N sl pc w = (Inr (concat rb, concat cb), w')"
    and t: "ticks w' = ticks w + nat N"
    and f: "fetched w' = fetched w @ map (page_url_of ub) [1..N]"
    unfolding raw_rows_def cleaned_rows_def rb_def cb_def g len by auto
  have l: "length rb = nat N" "length cb = nat N"
    unfolding rb_def cb_def by (simp_all add: batches_length)
  have n: "rb ! i = map (raw_row_of ck (clock e (ticks w + i))) (?items (1 + int i))
          \<and> cb ! i = map (cleaned_row_of ck (clock e (ticks w + i))) (?items (1 + int i))
          \<and> rb ! i \<noteq> []
          \<and> list_all (\<lambda>r. scraped_at r = clock e (ticks w + i)) (rb ! i)
          \<and> list_all (\<lambda>c. scraped_at c = clock e (ticks w + i)) (cb ! i)"
    if "i < nat N" for i
  proof -
    from that have i: "i < length [1..N]" by simp
    from that have p: "[1..N] ! i = 1 + int i" by simp
    have "[1..N] ! i \<in> set [1..N]" using i by (rule nth_mem)
    then have "?items (1 + int i) \<noteq> []"
      using assms(4) p by (simp add: list_all_iff)
    then show ?thesis
      unfolding rb_def cb_def by (simp add: batches_nth [OF i] p scraped_at_rows)
  qed
  have c3: "\<forall>i < nat N.
            rb ! i = map (raw_row_of ck (clock e (ticks w + i))) (?items (1 + int i))
          \<and> cb ! i = map (cleaned_row_of ck (clock e (ticks w + i))) (?items (1 + int i))
          \<and> rb ! i \<noteq> []
          \<and> list_all (\<lambda>r. scraped_at r = clock e (ticks w + i)) (rb ! i)
          \<and> list_all (\<lambda>c. scraped_at c = clock e (ticks w + i)) (cb ! i)"
    by (intro allI impI) (rule n)
  have c4: "\<forall>i < nat N. \<forall>j < nat N. \<forall>r \<in> set (rb ! i). \<forall>r' \<in> set (rb ! j).
            (scraped_at r = scraped_at r')
              = (clock e (ticks w + i) = clock e (ticks w + j))"
    using c3 by (simp add: list_all_iff)
  show ?thesis
    by (intro exI [of _ w'] conjI) (rule r t f l c3 c4)+
qed

theorem scrape_category_all_pages_witness:
  "list_all (\<lambda>p. page_items site world0 ''u'' p \<noteq> []) [1..2]
   \<and> (\<exists>w'. scrape_category site ''u'' ''dogs'' 2 1 True world0
          = (Inr (concat [take 2 site_raw, drop 2 site_raw],
                  concat [take 2 site_cleaned, drop 2 site_cleaned]), w')
      \<and> ticks w' = 2
      \<and> fetched w' = [''u?page=1'', ''u?page=2''])"
proof -
  have s: "(0::real) \<le> 1" by simp
  have t: "ticks world0 = 0" "fetched world0 @ map (page_url_of ''u'') [1..2]
      = [''u?page=1'', ''u?page=2'']"
    by code_simp+
  from scrape_category_all_pages [OF s site_two_pages, of "''dogs''" True]
  have "\<exists>w'. scrape_category site ''u'' ''dogs'' 2 1 True world0
          = (Inr (concat [take 2 site_raw, drop 2 site_raw],
                  concat [take 2 site_cleaned, drop 2 site_cleaned]), w')
      \<and> ticks w' = 2
      \<and> fetched w' = [''u?page=1'', ''u?page=2'']"
    unfolding t site_batches2 by auto
  with site_two_pages show ?thesis by blast
qed

text \<open>
  The claim as stated fails when the clock returns the same reading twice: both pages
  yield items (two and one), and all three rows carry the same timestamp.
\<close>

theorem same_timestamp_on_two_pages_counterexample:
  "list_all (\<lambda>p. page_items site_stuck world0 ''u'' p \<noteq> []) [1..2]
   \<and> map length [page_items site_stuck world0 ''u'' 1, page_items site_stuck world0 ''u'' 2]
       = [2, 1]
   \<and> map scraped_at
       (case fst (scrape_category site_stuck ''u'' ''dogs'' 2 0 False world0) of
          Inr (raw, cleaned) \<Rightarrow> raw
        | Inl err \<Rightarrow> [])
       = [''2024-05-01T10:00:00'', ''2024-05-01T10:00:00'', ''2024-05-01T10:00:00'']"
  by code_simp

subsection \<open>An empty page text\<close>

lemma truthy_text_nonempty: "[] \<notin> set (truthy_text h)"
  by (simp add: truthy_text_def split: option.splits)

lemma truthy_texts_nonempty: "[] \<notin> set (concat (map (\<lambda>p. truthy_text (f p)) ps))"
  by (auto simp: truthy_text_nonempty)

lemma page_items_agree:
  assumes "parse_html e1 = parse_html e2"
    and "\<forall>url. truthy_text (effective e1 w1 url) = truthy_text (effective e2 w2 url)"
  shows "page_items e1 w1 ub = page_items e2 w2 ub"
  using assms by (intro ext) (simp add: page_items_truthy)

lemma scrape_pages_falsy:
  assumes "truthy_text (effective e w (page_url_of ub page)) = []"
  shows "\<exists>w'. scrape_pages e ub ck mp sl cb (page # rest) acc w = (Inr acc, w')
          \<and> extracted w' = extracted w \<and> ticks w' = ticks w
          \<and> progress w' = progress w \<and> slept w' = slept w"
proof -
  have "page_items e w ub page = []"
    using assms by (simp add: page_items_truthy)
  from scrape_pages_stop [OF this, of ck mp sl cb rest acc] assms
  show ?thesis by auto
qed

lemma site_agree:
  "truthy_text (effective site world0 url) = truthy_text (effective site_down world0 url)"
  by (simp add: truthy_text_def effective_def http_result_def site_def site_down_def site_net_def
      world0_def raise_for_status_def)

text \<open>
  Claim C9. A fetch that succeeds with an empty text is treated as a failed fetch. At a
  page whose fetch result is \<^verbatim>\<open>None\<close> or the empty string the loop ends at once and
  returns the rows collected so far, with no call of the extractor, no clock reading, no
  progress call and no sleep. And two runs whose fetch results agree on every URL but
  for the difference between \<^verbatim>\<open>None\<close> and the empty string (same parser, same clock,
  \<^verbatim>\<open>sleep\<close> not negative) return the same rows and make the same calls of the extractor,
  the clock, the callback, \<^verbatim>\<open>time.sleep\<close> and \<^verbatim>\<open>fetch_page\<close>; the extractor is
  never called on an empty text.
\<close>

theorem empty_content_like_failure:
  assumes "0 \<le> sl" and "clock e1 = clock e2" and "parse_html e1 = parse_html e2"
    and "ticks w1 = ticks w2"
    and "\<forall>url. truthy_text (effective e1 w1 url) = truthy_text (effective e2 w2 url)"
  shows "(\<forall>page rest acc.
            effective e1 w1 (page_url_of ub page) = None
            \<or> effective e1 w1 (page_url_of ub page) = Some [] \<longrightarrow>
            (\<exists>w'. scrape_pages e1 ub ck mp sl cb (page # rest) acc w1 = (Inr acc, w')
               \<and> extracted w' = extracted w1 \<and> ticks w' = ticks w1
               \<and> progress w' = progress w1 \<and> slept w' = slept w1))
       \<and> (\<exists>res n x y z u w1' w2'.
           scrape_category e1 ub ck mp sl cb w1 = (Inr res, w1')
         \<and> scrape_category e2 ub ck mp sl cb w2 = (Inr res, w2')
         \<and> ticks w1' = ticks w1 + n \<and> ticks w2' = ticks w2 + n
         \<and> extracted w1' = extracted w1 @ x \<and> extracted w2' = extracted w2 @ x
         \<and> [] \<notin> set x
         \<and> progress w1' = progress w1 @ y \<and> progress w2' = progress w2 @ y
         \<and> slept w1' = slept w1 @ z \<and> slept w2' = slept w2 @ z
         \<and> fetched w1' = fetched w1 @ u \<and> fetched w2' = fetched w2 @ u)"
proof -
  have pi: "page_items e2 w2 ub = page_items e1 w1 ub"
    using assms(3,5) by (rule page_items_agree [symmetric])
  have tt: "(\<lambda>p. truthy_text (effective e2 w2 (page_url_of ub p)))
          = (\<lambda>p. truthy_text (effective e1 w1 (page_url_of ub p)))"
    using assms(5) by simp
  from scrape_category_run [OF assms(1), of e1 ub ck mp cb w1] obtain w1' where
    a: "scrape_category e1 ub ck mp sl cb w1
            = (Inr (raw_rows ck (clock e1) (page_items e1 w1 ub)
                      (enumerate (ticks w1) (good_pages (page_items e1 w1 ub) [1..mp])),
                    cleaned_rows ck (clock e1) (page_items e1 w1 ub)
                      (enumerate (ticks w1) (good_pages (page_items e1 w1 ub) [1..mp]))), w1')"
       "ticks w1' = ticks w1 + length (good_pages (page_items e1 w1 ub) [1..mp])"
       "progress w1' = progress w1 @
              (if cb then progress_entries mp (page_items e1 w1 ub) 0
                            (good_pages (page_items e1 w1 ub) [1..mp]) else [])"
       "slept w1' = slept w1 @ replicate (length (good_pages (page_items e1 w1 ub) [1..mp])) sl"
       "fetched w1' = fetched w1 @
              map (page_url_of ub)
                (take (Suc (length (good_pages (page_items e1 w1 ub) [1..mp]))) [1..mp])"
       "extracted w1' = extracted w1 @
              concat (map (\<lambda>p. truthy_text (effective e1 w1 (page_url_of ub p)))
                (take (Suc (length (good_pages (page_items e1 w1 ub) [1..mp]))) [1..mp]))"
    by blast
  from scrape_category_run [OF assms(1), of e2 ub ck mp cb w2] obtain w2' where
    b: "scrape_category e2 ub ck mp sl cb w2
            = (Inr (raw_rows ck (clock e1) (page_items e1 w1 ub)
                      (enumerate (ticks w1) (good_pages (page_items e1 w1 ub) [1..mp])),
                    cleaned_rows ck (clock e1) (page_items e1 w1 ub)
                      (enumerate (ticks w1) (good_pages (page_items e1 w1 ub) [1..mp]))), w2')"
       "ticks w2' = ticks w2 + length (good_pages (page_items e1 w1 ub) [1..mp])"
       "progress w2' = progress w2 @
              (if cb then progress_entries mp (page_items e1 w1 ub) 0
                            (good_pages (page_items e1 w1 ub) [1..mp]) else [])"
       "slept w2' = slept w2 @ replicate (length (good_pages (page_items e1 w1 ub) [1..mp])) sl"
       "fetched w2' = fetched w2 @
              map (page_url_of ub)
                (take (Suc (length (good_pages (page_items e1 w1 ub) [1..mp]))) [1..mp])"
       "extracted w2' = extracted w2 @
              concat (map (\<lambda>p. truthy_text (effective e1 w1 (page_url_of ub p)))
                (take (Suc (length (good_pages (page_items e1 w1 ub) [1..mp]))) [1..mp]))"
    unfolding pi tt assms(2) [symmetric] assms(4) [symmetric] by blast
  have ne: "[] \<notin> set (concat (map (\<lambda>p. truthy_text (effective e1 w1 (page_url_of ub p)))
                (take (Suc (length (good_pages (page_items e1 w1 ub) [1..mp]))) [1..mp])))"
    by (rule truthy_texts_nonempty)
  have two: "\<exists>res n x y z u w1' w2'.
           scrape_category e1 ub ck mp sl cb w1 = (Inr res, w1')
         \<and> scrape_category e2 ub ck mp sl cb w2 = (Inr res, w2')
         \<and> ticks w1' = ticks w1 + n \<and> ticks w2' = ticks w2 + n
         \<and> extracted w1' = extracted w1 @ x \<and> extracted w2' = extracted w2 @ x
         \<and> [] \<notin> set x
         \<and> progress w1' = progress w1 @ y \<and> progress w2' = progress w2 @ y
         \<and> slept w1' = slept w1 @ z \<and> slept w2' = slept w2 @ z
         \<and> fetched w1' = fetched w1 @ u \<and> fetched w2' = fetched w2 @ u"
    by (intro exI conjI) (rule a b ne)+
  have one: "\<exists>w'. scrape_pages e1 ub ck mp sl cb (page # rest) acc w1 = (Inr acc, w')
               \<and> extracted w' = extracted w1 \<and> ticks w' = ticks w1
               \<and> progress w' = progress w1 \<and> slept w' = slept w1"
    if "effective e1 w1 (page_url_of ub page) = None
        \<or> effective e1 w1 (page_url_of ub page) = Some []" for page rest acc
  proof -
    from that have "truthy_text (effective e1 w1 (page_url_of ub page)) = []"
      by (auto simp: truthy_text_def)
    then show ?thesis by (rule scrape_pages_falsy)
  qed
  show ?thesis using one two by blast
qed

theorem empty_content_like_failure_witness:
  "effective site world0 ''u?page=3'' = Some ''''
   \<and> effective site_down world0 ''u?page=3'' = None
   \<and> fst (scrape_category site ''u'' ''dogs'' 5 1 True world0)
       = fst (scrape_category site_down ''u'' ''dogs'' 5 1 True world0)
   \<and> extracted (snd (scrape_category site ''u'' ''dogs'' 5 1 True world0))
       = extracted (snd (scrape_category site_down ''u'' ''dogs'' 5 1 True world0))
   \<and> extracted (snd (scrape_category site ''u'' ''dogs'' 5 1 True world0)) = [''A'', ''B'']"
proof -
  have s: "(0::real) \<le> 1" by simp
  have c: "clock site = clock site_down" "parse_html site = parse_html site_down"
    by (simp_all add: site_def site_down_def)
  have e: "effective site world0 ''u?page=3'' = Some ''''"
    "effective site_down world0 ''u?page=3'' = None"
    "extracted (snd (scrape_category site ''u'' ''dogs'' 5 1 True world0)) = [''A'', ''B'']"
    by code_simp+
  have x: "extracted world0 = []" by (simp add: world0_def)
  have t: "ticks world0 = ticks world0" by simp
  have g: "\<forall>url. truthy_text (effective site world0 url)
               = truthy_text (effective site_down world0 url)"
    using site_agree by blast
  from empty_content_like_failure [OF s c t g, of "''u''" "''dogs''" 5 True]
  have "fst (scrape_category site ''u'' ''dogs'' 5 1 True world0)
       = fst (scrape_category site_down ''u'' ''dogs'' 5 1 True world0)
   \<and> extracted (snd (scrape_category site ''u'' ''dogs'' 5 1 True world0))
       = extracted (snd (scrape_category site_down ''u'' ''dogs'' 5 1 True world0))"
    unfolding x by auto
  with e show ?thesis by simp
qed

subsection \<open>Schema provisioning\<close>

lemma has_relation_append:
  "has_relation (db @ xs) nm = (has_relation db nm \<or> has_relation xs nm)"
  by (simp add: has_relation_def)

lemma has_index_append:
  "has_index (db @ xs) nm = (has_index db nm \<or> has_index xs nm)"
  by (simp add: has_index_def)

lemma name_count_append: "name_count (db @ xs) nm = name_count db nm + name_count xs nm"
  by (simp add: name_count_def)

lemma same_name_refl: "same_name a a"
  by (simp add: same_name_def)

lemma name_count_zero:
  "\<not> has_relation db nm \<Longrightarrow> \<not> has_index db nm \<Longrightarrow> name_count db nm = 0"
  by (auto simp: has_relation_def has_index_def name_count_def list_ex_iff filter_empty_conv)

lemma name_count_zero_iff:
  "name_count db nm = 0 \<longleftrightarrow> \<not> has_relation db nm \<and> \<not> has_index db nm"
  by (auto simp: has_relation_def has_index_def name_count_def list_ex_iff filter_empty_conv)

lemma create_table_cases:
  "create_table_if_not_exists nm cols db = (db', err) \<Longrightarrow>
     (has_relation db nm \<and> db' = db \<and> err = None)
   \<or> (\<not> has_relation db nm \<and> has_index db nm \<and> db' = db \<and> err = Some OperationalError)
   \<or> (\<not> has_relation db nm \<and> \<not> has_index db nm
        \<and> db' = db @ [\<lparr>obj_name = nm, obj_kind = Table, obj_cols = cols\<rparr>] \<and> err = None)"
  by (auto simp: create_table_if_not_exists_def split: if_splits)

lemma create_table_provides:
  "create_table_if_not_exists nm cols db = (db', None) \<Longrightarrow> has_relation db' nm"
  by (auto dest!: create_table_cases simp: has_relation_append)
     (simp add: has_relation_def same_name_refl)

lemma create_table_keeps:
  "create_table_if_not_exists nm cols db = (db', err) \<Longrightarrow> has_relation db n \<Longrightarrow> has_relation db' n"
  by (auto dest!: create_table_cases simp: has_relation_append)

lemma create_table_index:
  "create_table_if_not_exists nm cols db = (db', err) \<Longrightarrow> has_index db' n = has_index db n"
  by (auto dest!: create_table_cases simp: has_index_append) (simp add: has_index_def)

lemma create_table_present:
  "has_relation db nm \<Longrightarrow> create_table_if_not_exists nm cols db = (db, None)"
  by (simp add: create_table_if_not_exists_def)

lemma create_table_succeeds:
  "\<not> has_index db nm \<Longrightarrow> \<exists>db'. create_table_if_not_exists nm cols db = (db', None)"
  by (simp add: create_table_if_not_exists_def)

lemma create_table_unique:
  assumes "create_table_if_not_exists nm cols db = (db', err)" and "\<And>n. name_count db n \<le> 1"
  shows "name_count db' n \<le> 1"
proof -
  from create_table_cases [OF assms(1)]
  consider "db' = db"
    | "\<not> has_relation db nm" "\<not> has_index db nm"
      "db' = db @ [\<lparr>obj_name = nm, obj_kind = Table, obj_cols = cols\<rparr>]"
    by blast
  then show ?thesis
  proof cases
    case 1
    then show ?thesis using assms(2) by simp
  next
    case 2
    show ?thesis
    proof (cases "same_name nm n")
      case True
      then have "name_count db n = name_count db nm"
        by (simp add: name_count_def same_name_def)
      also have "\<dots> = 0" using 2 by (simp add: name_count_zero)
      finally show ?thesis using 2 True by (simp add: name_count_append name_count_def)
    next
      case False
      then show ?thesis using 2 assms(2) [of n] by (simp add: name_count_append name_count_def)
    qed
  qed
qed

lemma names_differ:
  "\<not> same_name ''raw_ads'' ''cleaned_ads''" "\<not> same_name ''raw_ads'' ''evaluations''"
  "\<not> same_name ''cleaned_ads'' ''evaluations''"
  by (simp_all add: same_name_def ascii_lower_def)

lemma create_tables_split:
  assumes "create_tables_if_not_exists db = (db3, None)"
  obtains db1 db2 where
    "create_table_if_not_exists ''raw_ads'' raw_ads_cols db = (db1, None)"
    "create_table_if_not_exists ''cleaned_ads'' cleaned_ads_cols db1 = (db2, None)"
    "create_table_if_not_exists ''evaluations'' evaluations_cols db2 = (db3, None)"
  using assms
  by (auto simp: create_tables_if_not_exists_def split: prod.splits option.splits)

lemma create_tables_provides:
  assumes "create_tables_if_not_exists db = (db3, None)"
  shows "list_all (has_relation db3) table_names"
proof -
  from assms obtain db1 db2 where
    a: "create_table_if_not_exists ''raw_ads'' raw_ads_cols db = (db1, None)" and
    b: "create_table_if_not_exists ''cleaned_ads'' cleaned_ads_cols db1 = (db2, None)" and
    c: "create_table_if_not_exists ''evaluations'' evaluations_cols db2 = (db3, None)"
    by (rule create_tables_split)
  have "has_relation db1 ''raw_ads''" using a by (rule create_table_provides)
  then have 1: "has_relation db3 ''raw_ads''"
    using b c by (blast intro: create_table_keeps)
  have "has_relation db2 ''cleaned_ads''" using b by (rule create_table_provides)
  then have 2: "has_relation db3 ''cleaned_ads''"
    using c by (blast intro: create_table_keeps)
  have 3: "has_relation db3 ''evaluations''" using c by (rule create_table_provides)
  show ?thesis using 1 2 3 by (simp add: table_names_def)
qed

lemma create_tables_present:
  assumes "list_all (has_relation db) table_names"
  shows "create_tables_if_not_exists db = (db, None)"
  using assms
  by (simp add: table_names_def create_tables_if_not_exists_def create_table_present)

lemma create_tables_succeeds:
  assumes "list_all (\<lambda>n. \<not> has_index db n) table_names"
  shows "\<exists>db3. create_tables_if_not_exists db = (db3, None)"
proof -
  from assms have i: "\<not> has_index db ''raw_ads''" "\<not> has_index db ''cleaned_ads''"
    "\<not> has_index db ''evaluations''"
    by (simp_all add: table_names_def)
  from create_table_succeeds [OF i(1)] obtain db1 where
    a: "create_table_if_not_exists ''raw_ads'' raw_ads_cols db = (db1, None)" by blast
  have "\<not> has_index db1 ''cleaned_ads''" using i(2) create_table_index [OF a] by simp
  from create_table_succeeds [OF this] obtain db2 where
    b: "create_table_if_not_exists ''cleaned_ads'' cleaned_ads_cols db1 = (db2, None)" by blast
  have "\<not> has_index db2 ''evaluations''"
    using i(3) create_table_index [OF a] create_table_index [OF b] by simp
  from create_table_succeeds [OF this] obtain db3 where
    c: "create_table_if_not_exists ''evaluations'' evaluations_cols db2 = (db3, None)" by blast
  show ?thesis using a b c by (simp add: create_tables_if_not_exists_def)
qed

lemma create_tables_fresh:
  assumes "list_all (\<lambda>n. name_count db n = 0) table_names"
  shows "create_tables_if_not_exists db =
     (db @ [\<lparr>obj_name = ''raw_ads'', obj_kind = Table, obj_cols = raw_ads_cols\<rparr>,
            \<lparr>obj_name = ''cleaned_ads'', obj_kind = Table, obj_cols = cleaned_ads_cols\<rparr>,
            \<lparr>obj_name = ''evaluations'', obj_kind = Table, obj_cols = evaluations_cols\<rparr>], None)"
proof -
  from assms have z: "\<not> has_relation db ''raw_ads''" "\<not> has_index db ''raw_ads''"
    "\<not> has_relation db ''cleaned_ads''" "\<not> has_index db ''cleaned_ads''"
    "\<not> has_relation db ''evaluations''" "\<not> has_index db ''evaluations''"
    by (simp_all add: table_names_def name_count_zero_iff)
  show ?thesis
    using z names_differ
    by (simp add: create_tables_if_not_exists_def create_table_if_not_exists_def
        has_relation_append has_index_append)
      (simp add: has_relation_def has_index_def)
qed

lemma create_table_failed:
  "create_table_if_not_exists nm cols db = (db', Some err) \<Longrightarrow> db' = db"
  by (auto dest!: create_table_cases)

lemma create_tables_again:
  "create_tables_if_not_exists (fst (create_tables_if_not_exists db))
     = create_tables_if_not_exists db"
proof -
  obtain db1 e1 where a: "create_table_if_not_exists ''raw_ads'' raw_ads_cols db = (db1, e1)"
    by (cases "create_table_if_not_exists ''raw_ads'' raw_ads_cols db")
  show ?thesis
  proof (cases e1)
    case (Some err)
    with a have "db1 = db" by (auto dest: create_table_failed)
    with a Some show ?thesis by (simp add: create_tables_if_not_exists_def)
  next
    case None
    note e1 = this
    with a have r1: "has_relation db1 ''raw_ads''" by (auto dest: create_table_provides)
    obtain db2 e2 where
      b: "create_table_if_not_exists ''cleaned_ads'' cleaned_ads_cols db1 = (db2, e2)"
      by (cases "create_table_if_not_exists ''cleaned_ads'' cleaned_ads_cols db1")
    show ?thesis
    proof (cases e2)
      case (Some err)
      with b have "db2 = db1" by (auto dest: create_table_failed)
      with a b e1 Some r1 show ?thesis
        by (simp add: create_tables_if_not_exists_def create_table_present)
    next
      case None
      note e2 = this
      with b have r2: "has_relation db2 ''cleaned_ads''" by (auto dest: create_table_provides)
      have r12: "has_relation db2 ''raw_ads''" using b r1 by (rule create_table_keeps)
      obtain db3 e3 where
        c: "create_table_if_not_exists ''evaluations'' evaluations_cols db2 = (db3, e3)"
        by (cases "create_table_if_not_exists ''evaluations'' evaluations_cols db2")
      have f: "create_tables_if_not_exists db = (db3, e3)"
        using a b c e1 e2 by (simp add: create_tables_if_not_exists_def)
      show ?thesis
      proof (cases e3)
        case (Some err)
        with c have "db3 = db2" by (auto dest: create_table_failed)
        with f c r12 r2 show ?thesis
          by (simp add: create_tables_if_not_exists_def create_table_present)
      next
        case None
        with f have "list_all (has_relation db3) table_names"
          by (auto intro: create_tables_provides)
        then have "create_tables_if_not_exists db3 = (db3, None)"
          by (rule create_tables_present)
        with f None show ?thesis by simp
      qed
    qed
  qed
qed

lemma create_tables_unique_any:
  assumes u: "\<And>n. name_count db n \<le> 1"
  shows "name_count (fst (create_tables_if_not_exists db)) n \<le> 1"
proof -
  obtain db1 e1 where a: "create_table_if_not_exists ''raw_ads'' raw_ads_cols db = (db1, e1)"
    by (cases "create_table_if_not_exists ''raw_ads'' raw_ads_cols db")
  obtain db2 e2 where
    b: "create_table_if_not_exists ''cleaned_ads'' cleaned_ads_cols db1 = (db2, e2)"
    by (cases "create_table_if_not_exists ''cleaned_ads'' cleaned_ads_cols db1")
  obtain db3 e3 where
    c: "create_table_if_not_exists ''evaluations'' evaluations_cols db2 = (db3, e3)"
    by (cases "create_table_if_not_exists ''evaluations'' evaluations_cols db2")
  have 1: "\<And>n. name_count db1 n \<le> 1" using a u by (rule create_table_unique)
  have 2: "\<And>n. name_count db2 n \<le> 1" using b 1 by (rule create_table_unique)
  have 3: "\<And>n. name_count db3 n \<le> 1" using c 2 by (rule create_table_unique)
  have "fst (create_tables_if_not_exists db) = db1 \<or> fst (create_tables_if_not_exists db) = db2
      \<or> fst (create_tables_if_not_exists db) = db3"
    using a b c by (auto simp: create_tables_if_not_exists_def split: option.splits)
  with 1 2 3 show ?thesis by auto
qed

text \<open>
  Claim C6. \<^verbatim>\<open>create_tables_if_not_exists\<close> is idempotent: a second call right after
  a first one returns what the first returned and leaves the catalogue as the first left
  it. The call returns without error unless an index bears the name of one of the three
  tables, and then the three tables exist. A catalogue that had them already is unchanged;
  a catalogue with no object of these names gains exactly the three tables; and if every
  name was borne by at most one object before the call, this is so after it.
\<close>

theorem create_tables_idempotent:
  "create_tables_if_not_exists (fst (create_tables_if_not_exists db))
     = create_tables_if_not_exists db
   \<and> (list_all (\<lambda>n. \<not> has_index db n) table_names
        \<longrightarrow> snd (create_tables_if_not_exists db) = None)
   \<and> (snd (create_tables_if_not_exists db) = None
        \<longrightarrow> list_all (has_relation (fst (create_tables_if_not_exists db))) table_names)
   \<and> (list_all (\<lambda>n. name_count db n = 0) table_names
        \<longrightarrow> create_tables_if_not_exists db
             = (db @ [\<lparr>obj_name = ''raw_ads'', obj_kind = Table, obj_cols = raw_ads_cols\<rparr>,
                  \<lparr>obj_name = ''cleaned_ads'', obj_kind = Table, obj_cols = cleaned_ads_cols\<rparr>,
                  \<lparr>obj_name = ''evaluations'', obj_kind = Table, obj_cols = evaluations_cols\<rparr>],
                None))
   \<and> (list_all (has_relation db) table_names \<longrightarrow> create_tables_if_not_exists db = (db, None))
   \<and> ((\<forall>n. name_count db n \<le> 1)
        \<longrightarrow> (\<forall>n. name_count (fst (create_tables_if_not_exists db)) n \<le> 1))"
proof -
  have s: "list_all (\<lambda>n. \<not> has_index db n) table_names
        \<longrightarrow> snd (create_tables_if_not_exists db) = None"
    using create_tables_succeeds [of db] by auto
  have p: "snd (create_tables_if_not_exists db) = None
        \<longrightarrow> list_all (has_relation (fst (create_tables_if_not_exists db))) table_names"
    using create_tables_provides [of db "fst (create_tables_if_not_exists db)"]
    by (cases "create_tables_if_not_exists db") auto
  have f: "list_all (\<lambda>n. name_count db n = 0) table_names
        \<longrightarrow> create_tables_if_not_exists db
             = (db @ [\<lparr>obj_name = ''raw_ads'', obj_kind = Table, obj_cols = raw_ads_cols\<rparr>,
                  \<lparr>obj_name = ''cleaned_ads'', obj_kind = Table, obj_cols = cleaned_ads_cols\<rparr>,
                  \<lparr>obj_name = ''evaluations'', obj_kind = Table, obj_cols = evaluations_cols\<rparr>],
                None)"
    using create_tables_fresh [of db] by blast
  have u: "list_all (has_relation db) table_names \<longrightarrow> create_tables_if_not_exists db = (db, None)"
    using create_tables_present [of db] by blast
  have d: "(\<forall>n. name_count db n \<le> 1)
        \<longrightarrow> (\<forall>n. name_count (fst (create_tables_if_not_exists db)) n \<le> 1)"
    using create_tables_unique_any [of db] by blast
  show ?thesis using create_tables_again [of db] s p f u d by blast
qed

theorem create_tables_idempotent_witness:
  "snd (create_tables_if_not_exists
          [\<lparr>obj_name = ''Cleaned_Ads'', obj_kind = Table, obj_cols = []\<rparr>]) = None
   \<and> fst (create_tables_if_not_exists
          [\<lparr>obj_name = ''Cleaned_Ads'', obj_kind = Table, obj_cols = []\<rparr>])
       = [\<lparr>obj_name = ''Cleaned_Ads'', obj_kind = Table, obj_cols = []\<rparr>,
          \<lparr>obj_name = ''raw_ads'', obj_kind = Table, obj_cols = raw_ads_cols\<rparr>,
          \<lparr>obj_name = ''evaluations'', obj_kind = Table, obj_cols = evaluations_cols\<rparr>]
   \<and> create_tables_if_not_exists
        [\<lparr>obj_name = ''Cleaned_Ads'', obj_kind = Table, obj_cols = []\<rparr>,
         \<lparr>obj_name = ''raw_ads'', obj_kind = Table, obj_cols = raw_ads_cols\<rparr>,
         \<lparr>obj_name = ''evaluations'', obj_kind = Table, obj_cols = evaluations_cols\<rparr>]
       = ([\<lparr>obj_name = ''Cleaned_Ads'', obj_kind = Table, obj_cols = []\<rparr>,
           \<lparr>obj_name = ''raw_ads'', obj_kind = Table, obj_cols = raw_ads_cols\<rparr>,
           \<lparr>obj_name = ''evaluations'', obj_kind = Table, obj_cols = evaluations_cols\<rparr>], None)"
proof -
  let ?db = "[\<lparr>obj_name = ''Cleaned_Ads'', obj_kind = Table, obj_cols = []\<rparr>]"
  have h: "list_all (\<lambda>n. \<not> has_index ?db n) table_names"
    by (simp add: table_names_def has_index_def)
  have v: "create_tables_if_not_exists ?db
     = ([\<lparr>obj_name = ''Cleaned_Ads'', obj_kind = Table, obj_cols = []\<rparr>,
          \<lparr>obj_name = ''raw_ads'', obj_kind = Table, obj_cols = raw_ads_cols\<rparr>,
          \<lparr>obj_name = ''evaluations'', obj_kind = Table, obj_cols = evaluations_cols\<rparr>], None)"
    by code_simp
  from create_tables_idempotent [of ?db] h v show ?thesis by simp
qed

end
